theory Spec2Isabelle
  imports Main "HOL-Library.Word"
begin

unbundle bit_operations_syntax

section \<open>Solidity value types\<close>

text \<open>
  The contract \<^verbatim>\<open>PhotoVerifierSolidity\<close> works on \<^verbatim>\<open>uint256\<close> and \<^verbatim>\<open>address\<close> values.
  Both are machine words; a byte string (\<^verbatim>\<open>bytes memory\<close>, \<^verbatim>\<open>bytes32\<close>) is a list of
  8-bit words.
\<close>

type_synonym uint256 = "256 word"
type_synonym address = "160 word"
type_synonym byte = "8 word"
type_synonym lane = "64 word"

section \<open>The built-in \<^verbatim>\<open>keccak256\<close>\<close>

text \<open>
  \<^verbatim>\<open>keccak256\<close> is a primitive of the language: the Keccak sponge with the permutation
  Keccak-f[1600], rate 1088 bits (136 bytes), capacity 512 bits, multi-rate padding
  \<open>pad10*1\<close> without domain suffix, and 256 bits of output. The state is the list of
  the 25 lanes, lane \<open>(x, y)\<close> at index \<open>x + 5 * y\<close>.
\<close>

definition rotl64 :: "lane \<Rightarrow> nat \<Rightarrow> lane" where
  "rotl64 w n = push_bit n w OR drop_bit (64 - n) w"

definition round_constants :: "lane list" where
  "round_constants =
    [0x0000000000000001, 0x0000000000008082, 0x800000000000808A, 0x8000000080008000,
     0x000000000000808B, 0x0000000080000001, 0x8000000080008081, 0x8000000000008009,
     0x000000000000008A, 0x0000000000000088, 0x0000000080008009, 0x000000008000000A,
     0x000000008000808B, 0x800000000000008B, 0x8000000000008089, 0x8000000000008003,
     0x8000000000008002, 0x8000000000000080, 0x000000000000800A, 0x800000008000000A,
     0x8000000080008081, 0x8000000000008080, 0x0000000080000001, 0x8000000080008008]"

definition rotation_offsets :: "nat list" where
  "rotation_offsets =
    [0, 1, 62, 28, 27,
     36, 44, 6, 55, 20,
     3, 10, 43, 25, 39,
     41, 45, 15, 21, 8,
     18, 2, 61, 56, 14]"

text \<open>Step \<open>\<theta>\<close>: the parity of each column, and its effect on every lane.\<close>

definition theta_C :: "lane list \<Rightarrow> lane list" where
  "theta_C A =
    map (\<lambda>x. A ! x XOR A ! (x + 5) XOR A ! (x + 10) XOR A ! (x + 15) XOR A ! (x + 20)) [0..<5]"

definition theta_D :: "lane list \<Rightarrow> lane list" where
  "theta_D C = map (\<lambda>x. C ! ((x + 4) mod 5) XOR rotl64 (C ! ((x + 1) mod 5)) 1) [0..<5]"

definition theta_apply :: "lane list \<Rightarrow> lane list \<Rightarrow> lane list" where
  "theta_apply D A = map (\<lambda>i. A ! i XOR D ! (i mod 5)) [0..<25]"

definition theta :: "lane list \<Rightarrow> lane list" where
  "theta A = theta_apply (theta_D (theta_C A)) A"

text \<open>
  Steps \<open>\<rho>\<close> and \<open>\<pi>\<close>: lane \<open>(x, y)\<close>, rotated by its offset, moves to
  \<open>(y, 2 * x + 3 * y)\<close>; read from the target, lane \<open>(X, Y)\<close> comes from
  \<open>((X + 3 * Y) mod 5, X)\<close>.
\<close>

definition rho_pi :: "lane list \<Rightarrow> lane list" where
  "rho_pi A =
    map (\<lambda>j. rotl64 (A ! ((j mod 5 + 3 * (j div 5)) mod 5 + 5 * (j mod 5)))
                (rotation_offsets ! ((j mod 5 + 3 * (j div 5)) mod 5 + 5 * (j mod 5))))
      [0..<25]"

text \<open>Step \<open>\<chi>\<close>: the only non-linear step, along each row.\<close>

definition chi :: "lane list \<Rightarrow> lane list" where
  "chi B =
    map (\<lambda>j. B ! j XOR
              (NOT (B ! ((j mod 5 + 1) mod 5 + 5 * (j div 5))) AND
               B ! ((j mod 5 + 2) mod 5 + 5 * (j div 5))))
      [0..<25]"

text \<open>Step \<open>\<iota>\<close>: the round constant goes into lane \<open>(0, 0)\<close>.\<close>

definition iota :: "lane \<Rightarrow> lane list \<Rightarrow> lane list" where
  "iota rc A = A[0 := A ! 0 XOR rc]"

definition keccak_round :: "lane list \<Rightarrow> lane \<Rightarrow> lane list" where
  "keccak_round A rc = iota rc (chi (rho_pi (theta A)))"

definition keccak_f :: "lane list \<Rightarrow> lane list" where
  "keccak_f A = foldl keccak_round A round_constants"

text \<open>Lanes are read from and written to bytes in little-endian order.\<close>

definition lane_of_bytes :: "byte list \<Rightarrow> lane" where
  "lane_of_bytes bs = foldr (\<lambda>b acc. push_bit 8 acc OR ucast b) bs 0"

definition bytes_of_lane :: "lane \<Rightarrow> byte list" where
  "bytes_of_lane w = map (\<lambda>i. ucast (drop_bit (8 * i) w)) [0..<8]"

definition rate_bytes :: nat where
  "rate_bytes = 136"

text \<open>The padding of a message of \<open>n\<close> bytes: \<open>pad10*1\<close>, at least one byte.\<close>

definition pad101 :: "nat \<Rightarrow> byte list" where
  "pad101 n =
    (let q = rate_bytes - n mod rate_bytes
     in if q = 1 then [0x81] else 0x01 # replicate (q - 2) 0 @ [0x80])"

definition xor_block :: "lane list \<Rightarrow> byte list \<Rightarrow> lane list" where
  "xor_block A blk =
    map (\<lambda>i. if i < 17 then A ! i XOR lane_of_bytes (take 8 (drop (8 * i) blk)) else A ! i)
      [0..<25]"

fun absorb :: "lane list \<Rightarrow> byte list \<Rightarrow> lane list" where
  "absorb A bs =
    (if bs = [] then A
     else absorb (keccak_f (xor_block A (take 136 bs))) (drop 136 bs))"

declare absorb.simps [simp del]

definition keccak256 :: "byte list \<Rightarrow> byte list" where
  "keccak256 msg =
    take 32 (concat (map bytes_of_lane (absorb (replicate 25 0) (msg @ pad101 (length msg)))))"

section \<open>\<^verbatim>\<open>abi.encodePacked\<close> and the cast of \<^verbatim>\<open>bytes32\<close> to \<^verbatim>\<open>uint256\<close>\<close>

text \<open>
  The packed encoding of a \<^verbatim>\<open>uint256\<close> is its 32 bytes, most significant first, with
  no padding and no length; the packed encoding of two values is the concatenation.
  The cast \<^verbatim>\<open>uint256(bytes32)\<close> reads the 32 bytes as a big-endian number.
\<close>

definition uint256_to_bytes :: "uint256 \<Rightarrow> byte list" where
  "uint256_to_bytes w = map (\<lambda>i. ucast (drop_bit (8 * (31 - i)) w)) [0..<32]"

definition encodePacked :: "uint256 \<Rightarrow> uint256 \<Rightarrow> byte list" where
  "encodePacked a b = uint256_to_bytes a @ uint256_to_bytes b"

definition bytes32_to_uint256 :: "byte list \<Rightarrow> uint256" where
  "bytes32_to_uint256 bs = foldl (\<lambda>acc b. push_bit 8 acc OR ucast b) 0 bs"

section \<open>The contract \<^verbatim>\<open>PhotoVerifierSolidity\<close>\<close>

record PhotoAttestation =
  verifiedAt :: uint256
  owner :: address
  zkCommitment :: uint256

text \<open>
  The storage of the contract. A Solidity mapping is total: a key that was never
  written reads as the zero value of the value type. The state variable
  \<^verbatim>\<open>owner\<close> of the contract is \<open>contract_owner\<close> here, since the struct
  \<^verbatim>\<open>PhotoAttestation\<close> has a field of the same name.
\<close>

record PhotoVerifierSolidity =
  attestations :: "uint256 \<Rightarrow> PhotoAttestation"
  ownerPhotoCount :: "address \<Rightarrow> uint256"
  contract_owner :: address
  photoCount :: uint256

text \<open>
  What a call reads from its environment: \<^verbatim>\<open>msg.sender\<close> and \<^verbatim>\<open>block.timestamp\<close>.
  The calls of the model carry no value and have the gas they need: no function of the
  contract is payable, so a call with value reverts before the body runs, and gas is
  outside the source.
\<close>

record call_env =
  msg_sender :: address
  block_timestamp :: uint256

text \<open>
  The contract is compiled with \<^verbatim>\<open>pragma solidity ^0.8.20\<close>: arithmetic is checked, and
  \<^verbatim>\<open>x++\<close> outside an \<^verbatim>\<open>unchecked\<close> block reverts with \<^verbatim>\<open>Panic(0x11)\<close> when \<open>x\<close> is
  the largest value of its type, \<open>2 ^ 256 - 1\<close>, which is \<open>- 1\<close> as a word. A
  reverted call leaves the storage as it was.
\<close>

datatype error = Panic_overflow

definition checked_inc :: "uint256 \<Rightarrow> error + uint256" where
  "checked_inc x = (if x = - 1 then Inl Panic_overflow else Inr (x + 1))"

definition zero_attestation :: PhotoAttestation where
  "zero_attestation = \<lparr>verifiedAt = 0, owner = 0, zkCommitment = 0\<rparr>"

definition constructor :: "call_env \<Rightarrow> PhotoVerifierSolidity" where
  "constructor env =
    \<lparr>attestations = (\<lambda>_. zero_attestation),
     ownerPhotoCount = (\<lambda>_. 0),
     contract_owner = msg_sender env,
     photoCount = 0\<rparr>"

definition verifyPhoto ::
  "call_env \<Rightarrow> uint256 \<Rightarrow> uint256 \<Rightarrow> PhotoVerifierSolidity
    \<Rightarrow> error + (uint256 \<times> PhotoVerifierSolidity)" where
  "verifyPhoto env photoHash commitment s =
    (let timestamp = block_timestamp env;
         s1 = s\<lparr>attestations := (attestations s)
                (photoHash := \<lparr>verifiedAt = timestamp, owner = msg_sender env,
                               zkCommitment = commitment\<rparr>)\<rparr>
     in case checked_inc (ownerPhotoCount s1 (msg_sender env)) of
          Inl e \<Rightarrow> Inl e
        | Inr n \<Rightarrow>
            (let s2 = s1\<lparr>ownerPhotoCount := (ownerPhotoCount s1)(msg_sender env := n)\<rparr>
             in case checked_inc (photoCount s2) of
                  Inl e \<Rightarrow> Inl e
                | Inr m \<Rightarrow> Inr (timestamp, s2\<lparr>photoCount := m\<rparr>)))"

definition getAttestation ::
  "uint256 \<Rightarrow> PhotoVerifierSolidity \<Rightarrow> uint256 \<times> address \<times> uint256" where
  "getAttestation photoHash s =
    (let att = attestations s photoHash
     in (verifiedAt att, owner att, zkCommitment att))"

definition computeCommitment :: "uint256 \<Rightarrow> uint256 \<Rightarrow> uint256" where
  "computeCommitment photoHash secret =
    (let data = encodePacked photoHash secret
     in bytes32_to_uint256 (keccak256 data))"

definition verifyZkProof :: "uint256 \<Rightarrow> uint256 \<Rightarrow> PhotoVerifierSolidity \<Rightarrow> bool" where
  "verifyZkProof photoHash secret s =
    (let att = attestations s photoHash;
         computed = computeCommitment photoHash secret
     in computed = zkCommitment att)"

definition isVerified :: "uint256 \<Rightarrow> PhotoVerifierSolidity \<Rightarrow> bool" where
  "isVerified photoHash s = (verifiedAt (attestations s photoHash) > 0)"

definition getOwnerOf :: "uint256 \<Rightarrow> PhotoVerifierSolidity \<Rightarrow> address" where
  "getOwnerOf photoHash s = owner (attestations s photoHash)"

definition getOwnerPhotoCount :: "address \<Rightarrow> PhotoVerifierSolidity \<Rightarrow> uint256" where
  "getOwnerPhotoCount a s = ownerPhotoCount s a"

definition getPhotoCount :: "PhotoVerifierSolidity \<Rightarrow> uint256" where
  "getPhotoCount s = photoCount s"

subsection \<open>Transactions\<close>

text \<open>
  The only function that writes is \<^verbatim>\<open>verifyPhoto\<close>. A transaction is a call of it with
  its environment; when the call reverts, the storage is unchanged. The states of a
  deployed contract are those that a list of transactions reaches from the constructor.
\<close>

type_synonym tx = "call_env \<times> uint256 \<times> uint256"

definition exec_tx :: "PhotoVerifierSolidity \<Rightarrow> tx \<Rightarrow> PhotoVerifierSolidity" where
  "exec_tx s t =
    (case t of (env, photoHash, commitment) \<Rightarrow>
      (case verifyPhoto env photoHash commitment s of
         Inl e \<Rightarrow> s
       | Inr (r, s') \<Rightarrow> s'))"

definition run :: "PhotoVerifierSolidity \<Rightarrow> tx list \<Rightarrow> PhotoVerifierSolidity" where
  "run s txs = foldl exec_tx s txs"

definition written_ids :: "tx list \<Rightarrow> uint256 set" where
  "written_ids txs = set (map (\<lambda>t. fst (snd t)) txs)"

section \<open>The effect of \<^verbatim>\<open>verifyPhoto\<close>\<close>

lemma checked_inc_Inr:
  "x \<noteq> - 1 \<Longrightarrow> checked_inc x = Inr (x + 1)"
  by (simp add: checked_inc_def)

lemma checked_inc_Inl:
  "checked_inc (- 1) = Inl Panic_overflow"
  by (simp add: checked_inc_def)

text \<open>The call succeeds exactly when neither counter is at its largest value.\<close>

lemma verifyPhoto_success:
  assumes "ownerPhotoCount s (msg_sender env) \<noteq> - 1" and "photoCount s \<noteq> - 1"
  shows "verifyPhoto env photoHash commitment s =
    Inr (block_timestamp env,
      s\<lparr>attestations := (attestations s)
          (photoHash := \<lparr>verifiedAt = block_timestamp env, owner = msg_sender env,
                         zkCommitment = commitment\<rparr>),
        ownerPhotoCount := (ownerPhotoCount s)
          (msg_sender env := ownerPhotoCount s (msg_sender env) + 1),
        photoCount := photoCount s + 1\<rparr>)"
  using assms by (simp add: verifyPhoto_def Let_def checked_inc_Inr)

lemma verifyPhoto_revert:
  assumes "ownerPhotoCount s (msg_sender env) = - 1 \<or> photoCount s = - 1"
  shows "verifyPhoto env photoHash commitment s = Inl Panic_overflow"
  using assms by (auto simp add: verifyPhoto_def Let_def checked_inc_def)

subsection \<open>Facts about \<^verbatim>\<open>uint256\<close> counters\<close>

lemma word_gt_zero_iff: "(0 < (x::uint256)) \<longleftrightarrow> x \<noteq> 0"
  by (simp add: word_neq_0_conv)

lemma unat_inc:
  "(x::uint256) \<noteq> - 1 \<Longrightarrow> unat (x + 1) = unat x + 1"
proof -
  assume "x \<noteq> - 1"
  then have "1 + x \<noteq> 0" using max_word_wrap [of x] by (auto simp add: add.commute)
  then have "unat (1 + x) = Suc (unat x)" by (rule unatSuc)
  then show ?thesis by (simp add: add.commute)
qed

lemma unat_uint256_max: "unat (- 1 :: uint256) = 2 ^ 256 - 1"
  by (simp add: unsigned_minus_1_eq_mask mask_eq_exp_minus_1)

subsection \<open>Runs of transactions\<close>

lemma run_Nil: "run s [] = s"
  by (simp add: run_def)

lemma run_snoc: "run s (txs @ [t]) = exec_tx (run s txs) t"
  by (simp add: run_def)

lemma exec_tx_success:
  assumes "ownerPhotoCount s (msg_sender env) \<noteq> - 1" and "photoCount s \<noteq> - 1"
  shows "exec_tx s (env, photoHash, commitment) =
      s\<lparr>attestations := (attestations s)
          (photoHash := \<lparr>verifiedAt = block_timestamp env, owner = msg_sender env,
                         zkCommitment = commitment\<rparr>),
        ownerPhotoCount := (ownerPhotoCount s)
          (msg_sender env := ownerPhotoCount s (msg_sender env) + 1),
        photoCount := photoCount s + 1\<rparr>"
  by (simp add: exec_tx_def verifyPhoto_success [OF assms])

lemma exec_tx_revert:
  assumes "ownerPhotoCount s (msg_sender env) = - 1 \<or> photoCount s = - 1"
  shows "exec_tx s (env, photoHash, commitment) = s"
  by (simp add: exec_tx_def verifyPhoto_revert [OF assms])

lemma exec_tx_frame:
  "(h \<noteq> photoHash \<longrightarrow> attestations (exec_tx s (env, photoHash, commitment)) h = attestations s h) \<and>
   (a \<noteq> msg_sender env \<longrightarrow>
      ownerPhotoCount (exec_tx s (env, photoHash, commitment)) a = ownerPhotoCount s a) \<and>
   contract_owner (exec_tx s (env, photoHash, commitment)) = contract_owner s"
proof (cases "ownerPhotoCount s (msg_sender env) = - 1 \<or> photoCount s = - 1")
  case True
  then show ?thesis by (simp add: exec_tx_revert)
next
  case False
  then show ?thesis by (simp add: exec_tx_success)
qed

lemma exec_tx_attestations_other:
  assumes "h \<noteq> fst (snd t)"
  shows "attestations (exec_tx s t) h = attestations s h"
proof -
  obtain env photoHash commitment where t: "t = (env, photoHash, commitment)"
    by (cases t) auto
  show ?thesis
  proof (cases "ownerPhotoCount s (msg_sender env) = - 1 \<or> photoCount s = - 1")
    case True
    then show ?thesis by (simp add: t exec_tx_revert)
  next
    case False
    then show ?thesis using assms by (simp add: t exec_tx_success)
  qed
qed

lemma never_written_zero:
  "h \<notin> written_ids txs \<Longrightarrow> attestations (run (constructor e0) txs) h = zero_attestation"
proof (induction txs rule: rev_induct)
  case Nil
  show ?case by (simp add: run_Nil constructor_def)
next
  case (snoc t txs)
  then show ?case
    by (simp add: run_snoc written_ids_def exec_tx_attestations_other)
qed

subsection \<open>The counters along a run\<close>

lemma sum_fun_upd:
  fixes f :: "address \<Rightarrow> uint256"
  shows "(\<Sum>a\<in>UNIV. unat ((f(k := v)) a)) + unat (f k) = (\<Sum>a\<in>UNIV. unat (f a)) + unat v"
proof -
  have 1: "(\<Sum>a\<in>UNIV. unat ((f(k := v)) a)) = unat v + (\<Sum>a\<in>UNIV - {k}. unat ((f(k := v)) a))"
    using sum.remove [of UNIV k "\<lambda>a. unat ((f(k := v)) a)"] by simp
  have 2: "(\<Sum>a\<in>UNIV. unat (f a)) = unat (f k) + (\<Sum>a\<in>UNIV - {k}. unat (f a))"
    using sum.remove [of UNIV k "\<lambda>a. unat (f a)"] by simp
  have 3: "(\<Sum>a\<in>UNIV - {k}. unat ((f(k := v)) a)) = (\<Sum>a\<in>UNIV - {k}. unat (f a))"
    by (rule sum.cong) auto
  from 1 2 3 show ?thesis by simp
qed

lemma exec_tx_counts_sum:
  assumes "(\<Sum>a\<in>UNIV. unat (ownerPhotoCount s a)) = unat (photoCount s)"
  shows "(\<Sum>a\<in>UNIV. unat (ownerPhotoCount (exec_tx s t) a)) = unat (photoCount (exec_tx s t))"
proof -
  obtain env photoHash commitment where t: "t = (env, photoHash, commitment)"
    by (cases t) auto
  show ?thesis
  proof (cases "ownerPhotoCount s (msg_sender env) = - 1 \<or> photoCount s = - 1")
    case True
    then show ?thesis using assms by (simp add: t exec_tx_revert)
  next
    case False
    then have ok: "ownerPhotoCount s (msg_sender env) \<noteq> - 1" "photoCount s \<noteq> - 1" by auto
    have "(\<Sum>a\<in>UNIV. unat (((ownerPhotoCount s)(msg_sender env := ownerPhotoCount s (msg_sender env) + 1)) a))
        + unat (ownerPhotoCount s (msg_sender env))
      = (\<Sum>a\<in>UNIV. unat (ownerPhotoCount s a)) + unat (ownerPhotoCount s (msg_sender env) + 1)"
      by (rule sum_fun_upd)
    then show ?thesis using assms ok
      by (simp add: t exec_tx_success unat_inc)
  qed
qed

lemma run_counts_sum:
  "(\<Sum>a\<in>UNIV. unat (ownerPhotoCount (run (constructor e0) txs) a)) =
     unat (photoCount (run (constructor e0) txs))"
proof (induction txs rule: rev_induct)
  case Nil
  show ?case by (simp add: run_Nil constructor_def)
next
  case (snoc t txs)
  then show ?case by (simp add: run_snoc exec_tx_counts_sum)
qed

lemma owner_count_le_sum:
  fixes f :: "address \<Rightarrow> uint256"
  shows "unat (f k) \<le> (\<Sum>a\<in>UNIV. unat (f a))"
  using sum.remove [of UNIV k "\<lambda>a. unat (f a)"] by simp

lemma exec_tx_photoCount_le:
  "unat (photoCount (exec_tx s t)) \<le> unat (photoCount s) + 1"
proof -
  obtain env photoHash commitment where t: "t = (env, photoHash, commitment)"
    by (cases t) auto
  show ?thesis
  proof (cases "ownerPhotoCount s (msg_sender env) = - 1 \<or> photoCount s = - 1")
    case True
    then show ?thesis by (simp add: t exec_tx_revert)
  next
    case False
    then show ?thesis by (simp add: t exec_tx_success unat_inc)
  qed
qed

lemma run_photoCount_le:
  "unat (photoCount (run (constructor e0) txs)) \<le> length txs"
proof (induction txs rule: rev_induct)
  case Nil
  show ?case by (simp add: run_Nil constructor_def)
next
  case (snoc t txs)
  have "unat (photoCount (exec_tx (run (constructor e0) txs) t))
      \<le> unat (photoCount (run (constructor e0) txs)) + 1"
    by (rule exec_tx_photoCount_le)
  with snoc show ?case by (simp add: run_snoc)
qed



lemma run_not_saturated:
  assumes "length txs < 2 ^ 256 - 1"
  shows "ownerPhotoCount (run (constructor e0) txs) a \<noteq> - 1 \<and>
         photoCount (run (constructor e0) txs) \<noteq> - 1"
proof -
  let ?s = "run (constructor e0) txs"
  have p: "unat (photoCount ?s) < 2 ^ 256 - 1"
    using run_photoCount_le [of e0 txs] assms by simp
  have "unat (ownerPhotoCount ?s a) \<le> unat (photoCount ?s)"
    using owner_count_le_sum [of "ownerPhotoCount ?s" a] run_counts_sum [of e0 txs] by simp
  with p have o: "unat (ownerPhotoCount ?s a) < 2 ^ 256 - 1" by simp
  from p o show ?thesis using unat_uint256_max by auto
qed

section \<open>The packed encoding and the digest\<close>

text \<open>
  The packed encoding of two words has 64 bytes, the first word in the first 32. The
  digest has 32 bytes, whatever the message. The cast of 32 bytes to a word and the 32
  bytes of a word are inverse to each other, so the encoding loses nothing.
\<close>

lemma length_uint256_to_bytes: "length (uint256_to_bytes w) = 32"
  by (simp add: uint256_to_bytes_def)

lemma length_encodePacked: "length (encodePacked a b) = 64"
  by (simp add: encodePacked_def length_uint256_to_bytes)

lemma take_encodePacked: "take 32 (encodePacked a b) = uint256_to_bytes a"
  by (simp add: encodePacked_def length_uint256_to_bytes)

lemma drop_encodePacked: "drop 32 (encodePacked a b) = uint256_to_bytes b"
  by (simp add: encodePacked_def length_uint256_to_bytes)

lemma length_keccak_round: "length (keccak_round A rc) = 25"
  by (simp add: keccak_round_def iota_def chi_def)

lemma length_foldl_keccak_round:
  "length A = 25 \<Longrightarrow> length (foldl keccak_round A rcs) = 25"
  by (induction rcs arbitrary: A) (simp_all add: length_keccak_round)

lemma length_keccak_f: "length A = 25 \<Longrightarrow> length (keccak_f A) = 25"
  by (simp add: keccak_f_def length_foldl_keccak_round)

lemma length_xor_block: "length (xor_block A blk) = 25"
  by (simp add: xor_block_def)

lemma absorb_Nil: "absorb A [] = A"
  by (simp add: absorb.simps [of A "[]"])

lemma absorb_step:
  "bs \<noteq> [] \<Longrightarrow> absorb A bs = absorb (keccak_f (xor_block A (take 136 bs))) (drop 136 bs)"
  by (simp add: absorb.simps [of A bs])

lemma length_absorb: "length A = 25 \<Longrightarrow> length (absorb A bs) = 25"
proof (induction A bs rule: absorb.induct)
  case (1 A bs)
  show ?case
  proof (cases "bs = []")
    case True
    then show ?thesis using "1.prems" by (simp add: absorb_Nil)
  next
    case False
    have "length (keccak_f (xor_block A (take 136 bs))) = 25"
      by (simp add: length_keccak_f length_xor_block)
    with False "1.IH" show ?thesis by (simp add: absorb_step)
  qed
qed

lemma length_bytes_of_lane: "length (bytes_of_lane w) = 8"
  by (simp add: bytes_of_lane_def)

lemma length_concat_bytes_of_lane:
  "length (concat (map bytes_of_lane L)) = 8 * length L"
  by (induction L) (simp_all add: length_bytes_of_lane)

lemma length_keccak256: "length (keccak256 msg) = 32"
  by (simp add: keccak256_def length_concat_bytes_of_lane length_absorb)

lemma be_step:
  "push_bit 8 (drop_bit 8 x) OR ucast (ucast x :: byte) = (x :: uint256)"
  by (rule bit_word_eqI) (auto simp add: bit_or_iff bit_push_bit_iff bit_drop_bit_eq bit_ucast_iff)

lemma be_prefix:
  "k \<le> 32 \<Longrightarrow>
    foldl (\<lambda>acc b. push_bit 8 acc OR ucast b) 0
      (map (\<lambda>i. ucast (drop_bit (8 * (31 - i)) w) :: byte) [0..<k]) =
    drop_bit (8 * (32 - k)) (w :: uint256)"
proof (induction k)
  case 0
  show ?case by (simp add: drop_bit_word_beyond)
next
  case (Suc k)
  then have k: "k < 32" by simp
  have e: "8 * (32 - k) = 8 + 8 * (31 - k)" using k by simp
  have "push_bit 8 (drop_bit (8 * (32 - k)) w) OR ucast (ucast (drop_bit (8 * (31 - k)) w) :: byte)
      = drop_bit (8 * (31 - k)) w"
    using be_step [of "drop_bit (8 * (31 - k)) w"] by (simp add: e drop_bit_drop_bit add.commute)
  with Suc k show ?case by simp
qed

lemma bytes32_to_uint256_inverse: "bytes32_to_uint256 (uint256_to_bytes w) = w"
  using be_prefix [of 32 w] by (simp add: bytes32_to_uint256_def uint256_to_bytes_def)

lemma be_last_byte:
  "(ucast (push_bit 8 (x :: uint256) OR ucast (b :: byte)) :: byte) = b"
  by (rule bit_word_eqI) (auto simp add: bit_or_iff bit_push_bit_iff bit_ucast_iff)

lemma be_higher_byte:
  "j < 31 \<Longrightarrow>
    (ucast (drop_bit (8 * Suc j) (push_bit 8 (x :: uint256) OR ucast (b :: byte))) :: byte) =
    ucast (drop_bit (8 * j) x)"
  by (rule bit_word_eqI)
    (auto simp add: bit_or_iff bit_push_bit_iff bit_ucast_iff bit_drop_bit_eq add.commute
      dest: bit_imp_le_length)

lemma byte_of_be:
  "length bs \<le> 32 \<Longrightarrow> j < length bs \<Longrightarrow>
    (ucast (drop_bit (8 * j) (foldl (\<lambda>acc b. push_bit 8 acc OR ucast b) (0 :: uint256) bs)) :: byte)
      = bs ! (length bs - 1 - j)"
proof (induction bs arbitrary: j rule: rev_induct)
  case Nil
  then show ?case by simp
next
  case (snoc b bs)
  show ?case
  proof (cases j)
    case 0
    then show ?thesis by (simp add: be_last_byte)
  next
    case (Suc j')
    with snoc.prems have j': "j' < length bs" "j' < 31" "length bs \<le> 32" by simp_all
    have "length bs - Suc j' < length bs" using j' by arith
    then have "bs ! (length bs - 1 - j') = (bs @ [b]) ! (length (bs @ [b]) - 1 - j)"
      using Suc by (simp add: nth_append)
    moreover have "(ucast (drop_bit (8 * j')
        (foldl (\<lambda>acc b. push_bit 8 acc OR ucast b) (0 :: uint256) bs)) :: byte)
          = bs ! (length bs - 1 - j')"
      by (rule snoc.IH) (use j' in simp_all)
    ultimately show ?thesis
      using be_higher_byte [OF j'(2), of "foldl (\<lambda>acc b. push_bit 8 acc OR ucast b) 0 bs" b] Suc
      by simp
  qed
qed

lemma uint256_to_bytes_inverse:
  assumes "length d = 32"
  shows "uint256_to_bytes (bytes32_to_uint256 d) = d"
proof (rule nth_equalityI)
  show "length (uint256_to_bytes (bytes32_to_uint256 d)) = length d"
    using assms by (simp add: length_uint256_to_bytes)
next
  fix i
  assume "i < length (uint256_to_bytes (bytes32_to_uint256 d))"
  then have i: "i < 32" by (simp add: length_uint256_to_bytes)
  then have "uint256_to_bytes (bytes32_to_uint256 d) ! i =
      ucast (drop_bit (8 * (31 - i)) (bytes32_to_uint256 d))"
    by (simp add: uint256_to_bytes_def)
  also have "\<dots> = d ! (length d - 1 - (31 - i))"
    unfolding bytes32_to_uint256_def using assms i by (intro byte_of_be) simp_all
  also have "\<dots> = d ! i" using assms i by simp
  finally show "uint256_to_bytes (bytes32_to_uint256 d) ! i = d ! i" .
qed

lemma encodePacked_inject:
  "encodePacked a b = encodePacked a' b' \<longleftrightarrow> a = a' \<and> b = b'"
proof
  assume e: "encodePacked a b = encodePacked a' b'"
  then have "take 32 (encodePacked a b) = take 32 (encodePacked a' b')"
    and "drop 32 (encodePacked a b) = drop 32 (encodePacked a' b')"
    by simp_all
  then have "uint256_to_bytes a = uint256_to_bytes a'" and "uint256_to_bytes b = uint256_to_bytes b'"
    by (simp_all add: take_encodePacked drop_encodePacked)
  then have "bytes32_to_uint256 (uint256_to_bytes a) = bytes32_to_uint256 (uint256_to_bytes a')"
    and "bytes32_to_uint256 (uint256_to_bytes b) = bytes32_to_uint256 (uint256_to_bytes b')"
    by simp_all
  then show "a = a' \<and> b = b'" by (simp add: bytes32_to_uint256_inverse)
qed simp

section \<open>Evaluating \<^verbatim>\<open>keccak256\<close>\<close>

text \<open>
  The equations below give each step of a round on an explicit state of 25 lanes, and
  the rotation of a lane that is a numeral as a numeral below \<open>2 ^ 64\<close>. With them
  the simplifier evaluates the permutation on a concrete block, innermost step first.
\<close>

lemma upt_5: "[0..<5] = [0, 1, 2, 3, 4]"
  by (simp add: upt_conv_Cons)

lemma upt_8: "[0..<8] = [0, 1, 2, 3, 4, 5, 6, 7]"
  by (simp add: upt_conv_Cons)

lemma upt_25:
  "[0..<25] = [0, 1, 2, 3, 4, 5, 6, 7, 8, 9, 10, 11, 12, 13, 14, 15, 16, 17, 18, 19, 20, 21, 22,
               23, 24]"
  by (simp add: upt_conv_Cons)

lemma upt_32:
  "[0..<32] = [0, 1, 2, 3, 4, 5, 6, 7, 8, 9, 10, 11, 12, 13, 14, 15, 16, 17, 18, 19, 20, 21, 22,
               23, 24, 25, 26, 27, 28, 29, 30, 31]"
  by (simp add: upt_conv_Cons)

lemma replicate_numeral_unroll:
  "replicate (numeral k) x = x # replicate (pred_numeral k) x"
  by (simp add: numeral_eq_Suc)

lemma theta_C_unroll:
  "theta_C [a0, a1, a2, a3, a4, a5, a6, a7, a8, a9, a10, a11, a12, a13, a14, a15, a16, a17, a18,
            a19, a20, a21, a22, a23, a24] =
    [a0 XOR a5 XOR a10 XOR a15 XOR a20, a1 XOR a6 XOR a11 XOR a16 XOR a21,
     a2 XOR a7 XOR a12 XOR a17 XOR a22, a3 XOR a8 XOR a13 XOR a18 XOR a23,
     a4 XOR a9 XOR a14 XOR a19 XOR a24]"
  by (simp add: theta_C_def upt_5)

lemma theta_D_unroll:
  "theta_D [c0, c1, c2, c3, c4] =
    [c4 XOR rotl64 c1 1, c0 XOR rotl64 c2 1, c1 XOR rotl64 c3 1, c2 XOR rotl64 c4 1,
     c3 XOR rotl64 c0 1]"
  by (simp add: theta_D_def upt_5)

lemma theta_apply_unroll:
  "theta_apply [d0, d1, d2, d3, d4]
      [a0, a1, a2, a3, a4, a5, a6, a7, a8, a9, a10, a11, a12, a13, a14, a15, a16, a17, a18, a19,
       a20, a21, a22, a23, a24] =
    [a0 XOR d0, a1 XOR d1, a2 XOR d2, a3 XOR d3, a4 XOR d4, a5 XOR d0, a6 XOR d1, a7 XOR d2,
     a8 XOR d3, a9 XOR d4, a10 XOR d0, a11 XOR d1, a12 XOR d2, a13 XOR d3, a14 XOR d4,
     a15 XOR d0, a16 XOR d1, a17 XOR d2, a18 XOR d3, a19 XOR d4, a20 XOR d0, a21 XOR d1,
     a22 XOR d2, a23 XOR d3, a24 XOR d4]"
  by (simp add: theta_apply_def upt_25)

lemma rho_pi_unroll:
  "rho_pi [a0, a1, a2, a3, a4, a5, a6, a7, a8, a9, a10, a11, a12, a13, a14, a15, a16, a17, a18,
           a19, a20, a21, a22, a23, a24] =
    [rotl64 a0 0, rotl64 a6 44, rotl64 a12 43, rotl64 a18 21, rotl64 a24 14, rotl64 a3 28,
     rotl64 a9 20, rotl64 a10 3, rotl64 a16 45, rotl64 a22 61, rotl64 a1 1, rotl64 a7 6,
     rotl64 a13 25, rotl64 a19 8, rotl64 a20 18, rotl64 a4 27, rotl64 a5 36, rotl64 a11 10,
     rotl64 a17 15, rotl64 a23 56, rotl64 a2 62, rotl64 a8 55, rotl64 a14 39, rotl64 a15 41,
     rotl64 a21 2]"
  by (simp add: rho_pi_def upt_25 rotation_offsets_def)

lemma chi_unroll:
  "chi [a0, a1, a2, a3, a4, a5, a6, a7, a8, a9, a10, a11, a12, a13, a14, a15, a16, a17, a18,
        a19, a20, a21, a22, a23, a24] =
    [a0 XOR (NOT a1 AND a2), a1 XOR (NOT a2 AND a3), a2 XOR (NOT a3 AND a4),
     a3 XOR (NOT a4 AND a0), a4 XOR (NOT a0 AND a1), a5 XOR (NOT a6 AND a7),
     a6 XOR (NOT a7 AND a8), a7 XOR (NOT a8 AND a9), a8 XOR (NOT a9 AND a5),
     a9 XOR (NOT a5 AND a6), a10 XOR (NOT a11 AND a12), a11 XOR (NOT a12 AND a13),
     a12 XOR (NOT a13 AND a14), a13 XOR (NOT a14 AND a10), a14 XOR (NOT a10 AND a11),
     a15 XOR (NOT a16 AND a17), a16 XOR (NOT a17 AND a18), a17 XOR (NOT a18 AND a19),
     a18 XOR (NOT a19 AND a15), a19 XOR (NOT a15 AND a16), a20 XOR (NOT a21 AND a22),
     a21 XOR (NOT a22 AND a23), a22 XOR (NOT a23 AND a24), a23 XOR (NOT a24 AND a20),
     a24 XOR (NOT a20 AND a21)]"
  by (simp add: chi_def upt_25)

lemma iota_unroll: "iota rc (a0 # as) = (a0 XOR rc) # as"
  by (simp add: iota_def)

text \<open>
  A rotation by \<open>n\<close> moves the low \<open>64 - n\<close> bits up and the high \<open>n\<close> bits down;
  on a number below \<open>2 ^ 64\<close> the two parts do not overlap.
\<close>

lemma bit_nat_less_64:
  assumes "K < 2 ^ 64" and "bit (K :: nat) j"
  shows "j < 64"
proof -
  have "take_bit 64 K = K" using assms(1) by (simp add: take_bit_nat_eq_self)
  then have "bit (take_bit 64 K) j" using assms(2) by simp
  then show ?thesis by (simp add: bit_take_bit_iff)
qed

lemma rotl64_of_nat:
  assumes "K < 2 ^ 64" and "n \<le> 64"
  shows "rotl64 (word_of_nat K) n =
    word_of_nat (push_bit n (K - push_bit (64 - n) (drop_bit (64 - n) K)) + drop_bit (64 - n) K)"
proof -
  have 1: "K - push_bit (64 - n) (drop_bit (64 - n) K) = take_bit (64 - n) K"
    using bits_ident [of "64 - n" K] by arith
  have 2: "push_bit n (take_bit (64 - n) K) + drop_bit (64 - n) K =
      push_bit n (take_bit (64 - n) K) OR drop_bit (64 - n) K"
  proof (rule disjunctive_add)
    fix i
    show "\<not> bit (push_bit n (take_bit (64 - n) K)) i \<or> \<not> bit (drop_bit (64 - n) K) i"
      using bit_nat_less_64 [OF assms(1), of "64 - n + i"] assms(2)
      by (auto simp add: bit_simps)
  qed
  have 3: "rotl64 (word_of_nat K) n =
      word_of_nat (push_bit n (take_bit (64 - n) K) OR drop_bit (64 - n) K)"
    unfolding rotl64_def
  proof (rule bit_word_eqI)
    fix i
    assume "i < LENGTH(64)"
    then show "bit (push_bit n (word_of_nat K :: lane) OR drop_bit (64 - n) (word_of_nat K)) i =
        bit (word_of_nat (push_bit n (take_bit (64 - n) K) OR drop_bit (64 - n) K) :: lane) i"
      using bit_nat_less_64 [OF assms(1), of "64 - n + i"] assms(2)
      by (auto simp add: bit_simps)
  qed
  show ?thesis by (simp only: 1 2 3)
qed

lemma rotl64_numeral:
  assumes "numeral k < (18446744073709551616 :: nat)" and "n \<le> 64"
  shows "rotl64 (numeral k) n =
    word_of_nat (push_bit n (numeral k - push_bit (64 - n) (drop_bit (64 - n) (numeral k)))
      + drop_bit (64 - n) (numeral k))"
  using rotl64_of_nat [of "numeral k" n] assms by simp

lemma rotl64_0: "rotl64 0 n = 0"
  by (simp add: rotl64_def)

lemma rotl64_1: "n < 64 \<Longrightarrow> rotl64 1 n = 2 ^ n"
  by (simp add: rotl64_def drop_bit_word_beyond)

text \<open>The 32 bytes of a numeral below \<open>2 ^ 256\<close>, computed on natural numbers.\<close>

lemma bit_nat_less_256:
  assumes "K < 2 ^ 256" and "bit (K :: nat) j"
  shows "j < 256"
proof -
  have "take_bit 256 K = K" using assms(1) by (simp add: take_bit_nat_eq_self)
  then have "bit (take_bit 256 K) j" using assms(2) by simp
  then show ?thesis by (simp add: bit_take_bit_iff)
qed

lemma byte_of_nat:
  assumes "K < 2 ^ 256"
  shows "(ucast (drop_bit n (word_of_nat K :: uint256)) :: byte) =
    word_of_nat (take_bit 8 (drop_bit n K))"
proof (rule bit_word_eqI)
  fix i
  assume "i < LENGTH(8)"
  then show "bit (ucast (drop_bit n (word_of_nat K :: uint256)) :: byte) i =
      bit (word_of_nat (take_bit 8 (drop_bit n K)) :: byte) i"
    using bit_nat_less_256 [OF assms, of "n + i"]
    by (auto simp add: bit_simps)
qed

lemma uint256_to_bytes_unroll:
  "uint256_to_bytes w =
    [ucast (drop_bit 248 w), ucast (drop_bit 240 w), ucast (drop_bit 232 w),
     ucast (drop_bit 224 w), ucast (drop_bit 216 w), ucast (drop_bit 208 w),
     ucast (drop_bit 200 w), ucast (drop_bit 192 w), ucast (drop_bit 184 w),
     ucast (drop_bit 176 w), ucast (drop_bit 168 w), ucast (drop_bit 160 w),
     ucast (drop_bit 152 w), ucast (drop_bit 144 w), ucast (drop_bit 136 w),
     ucast (drop_bit 128 w), ucast (drop_bit 120 w), ucast (drop_bit 112 w),
     ucast (drop_bit 104 w), ucast (drop_bit 96 w), ucast (drop_bit 88 w),
     ucast (drop_bit 80 w), ucast (drop_bit 72 w), ucast (drop_bit 64 w), ucast (drop_bit 56 w),
     ucast (drop_bit 48 w), ucast (drop_bit 40 w), ucast (drop_bit 32 w), ucast (drop_bit 24 w),
     ucast (drop_bit 16 w), ucast (drop_bit 8 w), ucast (drop_bit 0 w)]"
  by (simp add: uint256_to_bytes_def upt_32)

lemma uint256_to_bytes_numeral:
  assumes "numeral k < (2 ^ 256 :: nat)"
  shows "uint256_to_bytes (numeral k) =
    [word_of_nat (take_bit 8 (drop_bit 248 (numeral k :: nat))),
     word_of_nat (take_bit 8 (drop_bit 240 (numeral k :: nat))),
     word_of_nat (take_bit 8 (drop_bit 232 (numeral k :: nat))),
     word_of_nat (take_bit 8 (drop_bit 224 (numeral k :: nat))),
     word_of_nat (take_bit 8 (drop_bit 216 (numeral k :: nat))),
     word_of_nat (take_bit 8 (drop_bit 208 (numeral k :: nat))),
     word_of_nat (take_bit 8 (drop_bit 200 (numeral k :: nat))),
     word_of_nat (take_bit 8 (drop_bit 192 (numeral k :: nat))),
     word_of_nat (take_bit 8 (drop_bit 184 (numeral k :: nat))),
     word_of_nat (take_bit 8 (drop_bit 176 (numeral k :: nat))),
     word_of_nat (take_bit 8 (drop_bit 168 (numeral k :: nat))),
     word_of_nat (take_bit 8 (drop_bit 160 (numeral k :: nat))),
     word_of_nat (take_bit 8 (drop_bit 152 (numeral k :: nat))),
     word_of_nat (take_bit 8 (drop_bit 144 (numeral k :: nat))),
     word_of_nat (take_bit 8 (drop_bit 136 (numeral k :: nat))),
     word_of_nat (take_bit 8 (drop_bit 128 (numeral k :: nat))),
     word_of_nat (take_bit 8 (drop_bit 120 (numeral k :: nat))),
     word_of_nat (take_bit 8 (drop_bit 112 (numeral k :: nat))),
     word_of_nat (take_bit 8 (drop_bit 104 (numeral k :: nat))),
     word_of_nat (take_bit 8 (drop_bit 96 (numeral k :: nat))),
     word_of_nat (take_bit 8 (drop_bit 88 (numeral k :: nat))),
     word_of_nat (take_bit 8 (drop_bit 80 (numeral k :: nat))),
     word_of_nat (take_bit 8 (drop_bit 72 (numeral k :: nat))),
     word_of_nat (take_bit 8 (drop_bit 64 (numeral k :: nat))),
     word_of_nat (take_bit 8 (drop_bit 56 (numeral k :: nat))),
     word_of_nat (take_bit 8 (drop_bit 48 (numeral k :: nat))),
     word_of_nat (take_bit 8 (drop_bit 40 (numeral k :: nat))),
     word_of_nat (take_bit 8 (drop_bit 32 (numeral k :: nat))),
     word_of_nat (take_bit 8 (drop_bit 24 (numeral k :: nat))),
     word_of_nat (take_bit 8 (drop_bit 16 (numeral k :: nat))),
     word_of_nat (take_bit 8 (drop_bit 8 (numeral k :: nat))),
     word_of_nat (take_bit 8 (drop_bit 0 (numeral k :: nat)))]"
proof -
  have "(numeral k :: uint256) = word_of_nat (numeral k)" by simp
  then show ?thesis
    unfolding uint256_to_bytes_unroll
    by (simp only: byte_of_nat [OF assms])
qed

lemma uint256_to_bytes_1:
  "uint256_to_bytes 1 =
    [0, 0, 0, 0, 0, 0, 0, 0, 0, 0, 0, 0, 0, 0, 0, 0, 0, 0, 0, 0, 0, 0, 0, 0, 0, 0, 0, 0, 0, 0, 0,
     1]"
  by (simp add: uint256_to_bytes_unroll)

lemmas keccak_f_eval =
  keccak_f_def round_constants_def keccak_round_def theta_def theta_C_unroll theta_D_unroll
  theta_apply_unroll rho_pi_unroll chi_unroll iota_unroll rotl64_numeral rotl64_0 rotl64_1

lemmas absorb_eval =
  pad101_def rate_bytes_def replicate_numeral_unroll xor_block_def upt_25 lane_of_bytes_def

text \<open>A message shorter than the rate is absorbed in one block.\<close>

lemma length_pad101: "n < 136 \<Longrightarrow> length (pad101 n) = 136 - n"
  by (auto simp add: pad101_def rate_bytes_def Let_def)

lemma absorb_one_block:
  assumes "length bs = 136"
  shows "absorb A bs = keccak_f (xor_block A bs)"
proof -
  from assms have "bs \<noteq> []" by auto
  with assms show ?thesis by (simp add: absorb_step absorb_Nil)
qed

lemma keccak256_one_block:
  assumes "length msg < 136"
  shows "keccak256 msg =
    take 32 (concat (map bytes_of_lane
      (keccak_f (xor_block (replicate 25 0) (msg @ pad101 (length msg))))))"
proof -
  have "length (msg @ pad101 (length msg)) = 136"
    using assms by (simp add: length_pad101)
  then show ?thesis
    unfolding keccak256_def by (simp only: absorb_one_block)
qed

lemma squeeze_32:
  "take 32 (concat (map bytes_of_lane (a0 # a1 # a2 # a3 # as))) =
    bytes_of_lane a0 @ bytes_of_lane a1 @ bytes_of_lane a2 @ bytes_of_lane a3"
  by (simp add: length_bytes_of_lane)

subsection \<open>The digest of the empty message\<close>

text \<open>
  A known answer: the Keccak-256 digest of the empty byte string is
  \<^verbatim>\<open>c5d2460186f7233c927e7db2dcc703c0e500b653ca82273b7bfad8045d85a470\<close>.
\<close>

lemma keccak256_empty_permuted:
  "keccak_f (xor_block (replicate 25 0)
     ([] @
      pad101 (length ([])))) =
   [0x3C23F7860146D2C5, 0xC003C7DCB27D7E92, 0x3B2782CA53B600E5, 0x70A4855D04D8FA7B,
    0x74A97CD82C9ABB3D, 0xCB9B1161ECB0A2B9, 0x1F2211C4C0F9ED5C, 0x820DC6175FA24161,
    0x81BABFBCAB8046D2, 0xB1D551B7242B765B, 0x3CF26D5EBA2553E8, 0x3BCE6A98FE5B7210,
    0xBA7D9FA73545D2A2, 0xFA0D3CD3B03B15BB, 0x3BFED7EB12C7CE09, 0xEB829C854E19A949,
    0x1B5D1A6545A611FF, 0x064146F400E16B72, 0xFE8734E16471AB9F, 0x9C3088BDEEBB0936,
    0xDEE8B8ECA7B2ACBA, 0x163B62B71DCF4521, 0x6B571B9910726D91, 0xB7FA22CF622318BE,
    0xA3FE1AF7779FAFD7]"
  by (simp add: absorb_eval keccak_f_eval )

lemma keccak256_empty_digest:
  "keccak256 [] =
   [0xC5, 0xD2, 0x46, 0x01, 0x86, 0xF7, 0x23, 0x3C, 0x92, 0x7E, 0x7D, 0xB2, 0xDC, 0xC7, 0x03,
    0xC0, 0xE5, 0x00, 0xB6, 0x53, 0xCA, 0x82, 0x27, 0x3B, 0x7B, 0xFA, 0xD8, 0x04, 0x5D, 0x85,
    0xA4, 0x70]"
proof -
  have len: "length ([] :: byte list) < 136"
    by (simp add: )
  show ?thesis
    by (simp only: keccak256_one_block [OF len] keccak256_empty_permuted)
      (simp add: squeeze_32 bytes_of_lane_def upt_8)
qed

subsection \<open>The commitment of content \<^verbatim>\<open>0x11..11\<close> and secret \<^verbatim>\<open>0x22..22\<close>\<close>

lemma commitment_22_permuted:
  "keccak_f (xor_block (replicate 25 0)
     (encodePacked
        0x1111111111111111111111111111111111111111111111111111111111111111
        0x2222222222222222222222222222222222222222222222222222222222222222 @
      pad101 (length (encodePacked
        0x1111111111111111111111111111111111111111111111111111111111111111
        0x2222222222222222222222222222222222222222222222222222222222222222)))) =
   [0xEAAFD688DBE0923E, 0xA4FF2FF6ED4EDC9E, 0xBECC0D31FCCD2BD9, 0x71E80283FE473794,
    0x6353D0722A577A58, 0x036540135980F657, 0x5D9B10EF5B450F66, 0x85E2990092014154,
    0x8D30AE22E45CB584, 0xF7EF5933638940DB, 0x42F1D093C6ADB751, 0x6CED07C94D5BFA71,
    0xB1F40C992B4CB72A, 0x84E76A008ACDA50B, 0x8CD6EDACFB4406FB, 0x1D59782B8FA0BE05,
    0x7FA11988FBA8A6BD, 0xFB84DF071F44FD8D, 0x9A35955F01F48232, 0xBE2BDBAC8A8F9AB2,
    0xBC713BBFB206CD24, 0xB977FC64EB043D4D, 0xDC5C1A6F9F5E5ABB, 0x24BDF6EB30E941AE,
    0x18E98B972FCFD452]"
  by (simp add: absorb_eval keccak_f_eval length_encodePacked encodePacked_def uint256_to_bytes_numeral)

lemma commitment_22_digest:
  "keccak256 (encodePacked
        0x1111111111111111111111111111111111111111111111111111111111111111
        0x2222222222222222222222222222222222222222222222222222222222222222) =
   [0x3E, 0x92, 0xE0, 0xDB, 0x88, 0xD6, 0xAF, 0xEA, 0x9E, 0xDC, 0x4E, 0xED, 0xF6, 0x2F, 0xFF,
    0xA4, 0xD9, 0x2B, 0xCD, 0xFC, 0x31, 0x0D, 0xCC, 0xBE, 0x94, 0x37, 0x47, 0xFE, 0x83, 0x02,
    0xE8, 0x71]"
proof -
  have len: "length (encodePacked
        0x1111111111111111111111111111111111111111111111111111111111111111
        0x2222222222222222222222222222222222222222222222222222222222222222) < 136"
    by (simp add: length_encodePacked)
  show ?thesis
    by (simp only: keccak256_one_block [OF len] commitment_22_permuted)
      (simp add: squeeze_32 bytes_of_lane_def upt_8)
qed

subsection \<open>The commitment of content \<^verbatim>\<open>0x11..11\<close> and secret \<^verbatim>\<open>0x33..33\<close>\<close>

lemma commitment_33_permuted:
  "keccak_f (xor_block (replicate 25 0)
     (encodePacked
        0x1111111111111111111111111111111111111111111111111111111111111111
        0x3333333333333333333333333333333333333333333333333333333333333333 @
      pad101 (length (encodePacked
        0x1111111111111111111111111111111111111111111111111111111111111111
        0x3333333333333333333333333333333333333333333333333333333333333333)))) =
   [0x07149672FDEFFD31, 0x673ABC2243D0BBE7, 0x137AF026B8DE8AAD, 0xA2F886FE91C76FE8,
    0xB9D534C365100714, 0x9DFE1C3B8C3F1C0C, 0xB3E88E73F10F4692, 0x69AC258F3071AB93,
    0x0E03A999FFCFEC18, 0x5983C765C7DB23D1, 0x69F80F7CB189B22B, 0xD5CBFB0BB9E3A8BE,
    0x78CC3318BE3CA2C6, 0x5D187B0CF69EF5E1, 0x6556ACE83BA30806, 0xA2CB714B39F4BC5E,
    0x3FFAE9CEC80D8E3A, 0x66B72E7868CE5E45, 0xECB0DDB7F6532748, 0x668A4DEDDDAF60F0,
    0xE13D7EEB6A64BDAE, 0x0D841D4C38C509FE, 0xFAE78479364247F1, 0xB280E4904EFE32AF,
    0xD49387715051DA65]"
  by (simp add: absorb_eval keccak_f_eval length_encodePacked encodePacked_def uint256_to_bytes_numeral)

lemma commitment_33_digest:
  "keccak256 (encodePacked
        0x1111111111111111111111111111111111111111111111111111111111111111
        0x3333333333333333333333333333333333333333333333333333333333333333) =
   [0x31, 0xFD, 0xEF, 0xFD, 0x72, 0x96, 0x14, 0x07, 0xE7, 0xBB, 0xD0, 0x43, 0x22, 0xBC, 0x3A,
    0x67, 0xAD, 0x8A, 0xDE, 0xB8, 0x26, 0xF0, 0x7A, 0x13, 0xE8, 0x6F, 0xC7, 0x91, 0xFE, 0x86,
    0xF8, 0xA2]"
proof -
  have len: "length (encodePacked
        0x1111111111111111111111111111111111111111111111111111111111111111
        0x3333333333333333333333333333333333333333333333333333333333333333) < 136"
    by (simp add: length_encodePacked)
  show ?thesis
    by (simp only: keccak256_one_block [OF len] commitment_33_permuted)
      (simp add: squeeze_32 bytes_of_lane_def upt_8)
qed

subsection \<open>The commitment of content 1 and secret 2\<close>

lemma commitment_1_2_permuted:
  "keccak_f (xor_block (replicate 25 0)
     (encodePacked 1 2 @
      pad101 (length (encodePacked 1 2)))) =
   [0x54DFE7B6CE7B0BE9, 0x976E54EED878FB18, 0x061AC0CCBB083AC8, 0xE0C2A7D2CC99D544,
    0x1EEB395D3FE50A08, 0x37BA324068A63A80, 0x10004FD9F45E65A5, 0x901C258DBB15A030,
    0x5E5534AD85366113, 0x48A688EC2604F72C, 0x00AFFECACDA65A4B, 0x62A0A78E430E947F,
    0xECCB184DE9B06352, 0xCABF47C9ECA28868, 0xD7AB9F73FD249A0E, 0x6335E46F465537B1,
    0x98E03FC722C39DED, 0x97D330515A3E6299, 0x946798E75005A954, 0x348CC892970D0CFD,
    0x95DD6DCF60153078, 0x2CD488F6BF818A40, 0xD9F4357839E7743F, 0x238CD8E1F3CA09AC,
    0x10F9728B91C3D240]"
  by (simp add: absorb_eval keccak_f_eval length_encodePacked encodePacked_def uint256_to_bytes_numeral uint256_to_bytes_1)

lemma commitment_1_2_digest:
  "keccak256 (encodePacked 1 2) =
   [0xE9, 0x0B, 0x7B, 0xCE, 0xB6, 0xE7, 0xDF, 0x54, 0x18, 0xFB, 0x78, 0xD8, 0xEE, 0x54, 0x6E,
    0x97, 0xC8, 0x3A, 0x08, 0xBB, 0xCC, 0xC0, 0x1A, 0x06, 0x44, 0xD5, 0x99, 0xCC, 0xD2, 0xA7,
    0xC2, 0xE0]"
proof -
  have len: "length (encodePacked 1 2) < 136"
    by (simp add: length_encodePacked)
  show ?thesis
    by (simp only: keccak256_one_block [OF len] commitment_1_2_permuted)
      (simp add: squeeze_32 bytes_of_lane_def upt_8)
qed

lemma computeCommitment_1_2:
  "computeCommitment 1 2 =
    0xE90B7BCEB6E7DF5418FB78D8EE546E97C83A08BBCCC01A0644D599CCD2A7C2E0"
  by (simp add: computeCommitment_def commitment_1_2_digest bytes32_to_uint256_def)

lemma computeCommitment_22:
  "computeCommitment
      0x1111111111111111111111111111111111111111111111111111111111111111
      0x2222222222222222222222222222222222222222222222222222222222222222 =
    0x3E92E0DB88D6AFEA9EDC4EEDF62FFFA4D92BCDFC310DCCBE943747FE8302E871"
  by (simp add: computeCommitment_def commitment_22_digest bytes32_to_uint256_def)

lemma computeCommitment_33:
  "computeCommitment
      0x1111111111111111111111111111111111111111111111111111111111111111
      0x3333333333333333333333333333333333333333333333333333333333333333 =
    0x31FDEFFD72961407E7BBD04322BC3A67AD8ADEB826F07A13E86FC791FE86F8A2"
  by (simp add: computeCommitment_def commitment_33_digest bytes32_to_uint256_def)

section \<open>Write, then read\<close>

text \<open>
  Claim C1. After \<^verbatim>\<open>verifyPhoto(photoHash, commitment)\<close> by \<open>msg.sender\<close> at
  \<open>block.timestamp\<close>, the call has returned the timestamp, \<^verbatim>\<open>getAttestation\<close> returns
  the record (timestamp, sender, commitment) and \<^verbatim>\<open>getOwnerOf\<close> returns the sender.
  \<^verbatim>\<open>isVerified\<close> tests \<^verbatim>\<open>verifiedAt > 0\<close>, so it returns true exactly when the
  timestamp is not zero. The call is made in any state in which it does not revert,
  that is, in which the sender's counter and the global counter are below
  \<open>2 ^ 256 - 1\<close>.
\<close>

theorem verifyPhoto_then_read:
  assumes "ownerPhotoCount s (msg_sender env) \<noteq> - 1" and "photoCount s \<noteq> - 1"
  shows "\<exists>s'. verifyPhoto env photoHash commitment s = Inr (block_timestamp env, s') \<and>
    getAttestation photoHash s' = (block_timestamp env, msg_sender env, commitment) \<and>
    isVerified photoHash s' = (block_timestamp env \<noteq> 0) \<and>
    getOwnerOf photoHash s' = msg_sender env"
  using verifyPhoto_success [OF assms, of photoHash commitment]
  by (simp add: getAttestation_def isVerified_def getOwnerOf_def word_gt_zero_iff)

text \<open>The theorem at a concrete call: sender 10 at time 1000 on a fresh contract.\<close>

theorem verifyPhoto_then_read_witness:
  "ownerPhotoCount (constructor \<lparr>msg_sender = 7, block_timestamp = 999\<rparr>)
      (msg_sender \<lparr>msg_sender = 10, block_timestamp = 1000\<rparr>) \<noteq> - 1 \<and>
   photoCount (constructor \<lparr>msg_sender = 7, block_timestamp = 999\<rparr>) \<noteq> - 1 \<and>
   (\<exists>s'. verifyPhoto \<lparr>msg_sender = 10, block_timestamp = 1000\<rparr> 17 34
            (constructor \<lparr>msg_sender = 7, block_timestamp = 999\<rparr>) = Inr (1000, s') \<and>
      getAttestation 17 s' = (1000, 10, 34) \<and> isVerified 17 s' \<and> getOwnerOf 17 s' = 10)"
  using verifyPhoto_then_read [of "constructor \<lparr>msg_sender = 7, block_timestamp = 999\<rparr>"
      "\<lparr>msg_sender = 10, block_timestamp = 1000\<rparr>" 17 34]
  by (simp add: constructor_def)

text \<open>
  With timestamp 0 the call succeeds and stores the record, and \<^verbatim>\<open>isVerified\<close> still
  returns false: a record whose \<^verbatim>\<open>verifiedAt\<close> is 0 reads as absent.
\<close>

theorem verifyPhoto_zero_timestamp_not_verified:
  "\<not> isl (verifyPhoto \<lparr>msg_sender = 10, block_timestamp = 0\<rparr> 17 34
      (constructor \<lparr>msg_sender = 7, block_timestamp = 0\<rparr>)) \<and>
   \<not> isVerified 17 (exec_tx (constructor \<lparr>msg_sender = 7, block_timestamp = 0\<rparr>)
      (\<lparr>msg_sender = 10, block_timestamp = 0\<rparr>, 17, 34))"
  by (simp add: exec_tx_def verifyPhoto_def Let_def checked_inc_def constructor_def isVerified_def)

section \<open>Overwriting a record\<close>

text \<open>
  Claim C3. On a fresh contract, \<^verbatim>\<open>verifyPhoto(photoHash, c1)\<close> by \<open>ownerA\<close> at \<open>t1\<close>
  followed by \<^verbatim>\<open>verifyPhoto(photoHash, c2)\<close> by \<open>ownerB\<close> at \<open>t2\<close>: both calls
  succeed, the record of \<open>photoHash\<close> is (t2, ownerB, c2), and the total count is 2.
  For two different owners each owner's count is 1; when \<open>ownerA\<close> and \<open>ownerB\<close>
  are the same identity, that identity's count is 2.
\<close>

theorem overwrite_semantics:
  "\<exists>s1 s2.
     verifyPhoto \<lparr>msg_sender = ownerA, block_timestamp = t1\<rparr> photoHash c1 (constructor e0)
       = Inr (t1, s1) \<and>
     verifyPhoto \<lparr>msg_sender = ownerB, block_timestamp = t2\<rparr> photoHash c2 s1
       = Inr (t2, s2) \<and>
     getAttestation photoHash s2 = (t2, ownerB, c2) \<and>
     getOwnerPhotoCount ownerA s2 = (if ownerA = ownerB then 2 else 1) \<and>
     getOwnerPhotoCount ownerB s2 = (if ownerA = ownerB then 2 else 1) \<and>
     getPhotoCount s2 = 2"
  by (simp add: verifyPhoto_def Let_def checked_inc_def constructor_def
      getAttestation_def getOwnerPhotoCount_def getPhotoCount_def)

text \<open>The theorem for owners 10 and 11 on one identifier.\<close>

theorem overwrite_semantics_witness:
  "\<exists>s1 s2.
     verifyPhoto \<lparr>msg_sender = 10, block_timestamp = 1000\<rparr> 17 34
       (constructor \<lparr>msg_sender = 7, block_timestamp = 999\<rparr>) = Inr (1000, s1) \<and>
     verifyPhoto \<lparr>msg_sender = 11, block_timestamp = 2000\<rparr> 17 51 s1 = Inr (2000, s2) \<and>
     getAttestation 17 s2 = (2000, 11, 51) \<and>
     getOwnerPhotoCount 10 s2 = 1 \<and>
     getOwnerPhotoCount 11 s2 = 1 \<and>
     getPhotoCount s2 = 2"
  using overwrite_semantics [of 10 1000 17 34 "\<lparr>msg_sender = 7, block_timestamp = 999\<rparr>" 11 2000 51]
  by simp

text \<open>The same sender writing one identifier twice has count 2, not 1.\<close>

theorem overwrite_same_owner_counts_two:
  "getOwnerPhotoCount 10
     (run (constructor \<lparr>msg_sender = 7, block_timestamp = 999\<rparr>)
        [(\<lparr>msg_sender = 10, block_timestamp = 1000\<rparr>, 17, 34),
         (\<lparr>msg_sender = 10, block_timestamp = 2000\<rparr>, 17, 51)]) = 2"
  by (simp add: run_def exec_tx_def verifyPhoto_def Let_def checked_inc_def constructor_def
      getOwnerPhotoCount_def)

section \<open>Verification of a commitment\<close>

text \<open>
  Claim C4. In every state, \<^verbatim>\<open>verifyZkProof(photoHash, secret)\<close> returns true if and
  only if \<^verbatim>\<open>computeCommitment(photoHash, secret)\<close> equals the commitment stored for
  \<open>photoHash\<close> (the third component of \<^verbatim>\<open>getAttestation\<close>); the equality is that of
  256-bit words, which is agreement on every bit.
\<close>

theorem verifyZkProof_iff:
  "(verifyZkProof photoHash secret s \<longleftrightarrow>
      computeCommitment photoHash secret = snd (snd (getAttestation photoHash s))) \<and>
   (verifyZkProof photoHash secret s \<longleftrightarrow>
      (\<forall>n. bit (computeCommitment photoHash secret) n \<longleftrightarrow>
           bit (zkCommitment (attestations s photoHash)) n))"
proof -
  have "(computeCommitment photoHash secret = zkCommitment (attestations s photoHash)) =
      (\<forall>n. bit (computeCommitment photoHash secret) n \<longleftrightarrow>
           bit (zkCommitment (attestations s photoHash)) n)"
    by (auto intro: bit_word_eqI)
  then show ?thesis
    by (simp add: verifyZkProof_def getAttestation_def Let_def)
qed

text \<open>The theorem on a fresh contract, where no commitment is stored.\<close>

theorem verifyZkProof_iff_witness:
  "(verifyZkProof 17 5 (constructor \<lparr>msg_sender = 7, block_timestamp = 999\<rparr>) \<longleftrightarrow>
      computeCommitment 17 5 =
        snd (snd (getAttestation 17 (constructor \<lparr>msg_sender = 7, block_timestamp = 999\<rparr>)))) \<and>
   snd (snd (getAttestation 17 (constructor \<lparr>msg_sender = 7, block_timestamp = 999\<rparr>))) = 0"
  using verifyZkProof_iff [of 17 5 "constructor \<lparr>msg_sender = 7, block_timestamp = 999\<rparr>"]
  by (simp add: getAttestation_def constructor_def zero_attestation_def)

section \<open>The commitment\<close>

text \<open>
  Claim C5. \<^verbatim>\<open>computeCommitment(photoHash, secret)\<close> is the Keccak-256 digest of the
  64 bytes made of the 32 big-endian bytes of \<open>photoHash\<close> followed by the 32
  big-endian bytes of \<open>secret\<close>, with nothing before, between or after them, read as
  a 256-bit big-endian number: the 32 bytes of the result are the 32 bytes of the
  digest. Each 32-byte encoding determines its value. The function is a total function
  of its two arguments: it has a value for all of them, the same at every call, and it
  reads no storage. The hash is Keccak-256 as published: the digest of the empty
  message is the known one, and so is the commitment of content 1 and secret 2.
\<close>

theorem computeCommitment_is_keccak256_of_packed_pair:
  "computeCommitment photoHash secret =
     bytes32_to_uint256 (keccak256 (uint256_to_bytes photoHash @ uint256_to_bytes secret)) \<and>
   uint256_to_bytes (computeCommitment photoHash secret) =
     keccak256 (uint256_to_bytes photoHash @ uint256_to_bytes secret) \<and>
   length (uint256_to_bytes photoHash @ uint256_to_bytes secret) = 64 \<and>
   take 32 (encodePacked photoHash secret) = uint256_to_bytes photoHash \<and>
   drop 32 (encodePacked photoHash secret) = uint256_to_bytes secret \<and>
   bytes32_to_uint256 (uint256_to_bytes photoHash) = photoHash \<and>
   bytes32_to_uint256 (uint256_to_bytes secret) = secret \<and>
   (encodePacked photoHash secret = encodePacked photoHash' secret' \<longleftrightarrow>
      photoHash = photoHash' \<and> secret = secret') \<and>
   length (keccak256 (uint256_to_bytes photoHash @ uint256_to_bytes secret)) = 32 \<and>
   keccak256 [] =
     [0xC5, 0xD2, 0x46, 0x01, 0x86, 0xF7, 0x23, 0x3C, 0x92, 0x7E, 0x7D, 0xB2, 0xDC, 0xC7, 0x03,
      0xC0, 0xE5, 0x00, 0xB6, 0x53, 0xCA, 0x82, 0x27, 0x3B, 0x7B, 0xFA, 0xD8, 0x04, 0x5D, 0x85,
      0xA4, 0x70] \<and>
   computeCommitment 1 2 =
     0xE90B7BCEB6E7DF5418FB78D8EE546E97C83A08BBCCC01A0644D599CCD2A7C2E0"
proof -
  have c: "computeCommitment photoHash secret =
      bytes32_to_uint256 (keccak256 (uint256_to_bytes photoHash @ uint256_to_bytes secret))"
    by (simp add: computeCommitment_def encodePacked_def)
  have d: "uint256_to_bytes (computeCommitment photoHash secret) =
      keccak256 (uint256_to_bytes photoHash @ uint256_to_bytes secret)"
    by (simp add: c uint256_to_bytes_inverse length_keccak256)
  have l: "length (uint256_to_bytes photoHash @ uint256_to_bytes secret) = 64"
    by (simp add: length_uint256_to_bytes)
  note take_encodePacked [of photoHash secret] drop_encodePacked [of photoHash secret]
    bytes32_to_uint256_inverse [of photoHash] bytes32_to_uint256_inverse [of secret]
    encodePacked_inject [of photoHash secret photoHash' secret']
    length_keccak256 [of "uint256_to_bytes photoHash @ uint256_to_bytes secret"]
    keccak256_empty_digest computeCommitment_1_2
  with c d l show ?thesis by (intro conjI)
qed

text \<open>The theorem at content \<^verbatim>\<open>0x11..11\<close> and secret \<^verbatim>\<open>0x22..22\<close>.\<close>

theorem computeCommitment_is_keccak256_of_packed_pair_witness:
  "computeCommitment
      0x1111111111111111111111111111111111111111111111111111111111111111
      0x2222222222222222222222222222222222222222222222222222222222222222 =
     bytes32_to_uint256 (keccak256
       (uint256_to_bytes 0x1111111111111111111111111111111111111111111111111111111111111111 @
        uint256_to_bytes 0x2222222222222222222222222222222222222222222222222222222222222222)) \<and>
   uint256_to_bytes (computeCommitment
      0x1111111111111111111111111111111111111111111111111111111111111111
      0x2222222222222222222222222222222222222222222222222222222222222222) =
     keccak256
       (uint256_to_bytes 0x1111111111111111111111111111111111111111111111111111111111111111 @
        uint256_to_bytes 0x2222222222222222222222222222222222222222222222222222222222222222)"
  using computeCommitment_is_keccak256_of_packed_pair
    [of "0x1111111111111111111111111111111111111111111111111111111111111111"
        "0x2222222222222222222222222222222222222222222222222222222222222222"]
  by blast

section \<open>Proving ownership\<close>

text \<open>
  Claim C6. After \<^verbatim>\<open>verifyPhoto(photoHash, computeCommitment(photoHash, secret))\<close>, made
  by any sender at any time in any state in which the call does not revert,
  \<^verbatim>\<open>verifyZkProof(photoHash, secret)\<close> returns true. In the scenario of the
  specification (content \<^verbatim>\<open>0x11..11\<close>, secret \<^verbatim>\<open>0x22..22\<close>, owner \<open>A\<close>, timestamp
  1000, on a fresh contract) the proof with the secret succeeds, the proof with
  \<^verbatim>\<open>0x33..33\<close> fails, and the count of \<open>A\<close> is 1.
\<close>

theorem ownership_proof_round_trip:
  "(ownerPhotoCount s (msg_sender env) \<noteq> - 1 \<and> photoCount s \<noteq> - 1 \<longrightarrow>
      (\<exists>s'. verifyPhoto env photoHash (computeCommitment photoHash secret) s
              = Inr (block_timestamp env, s') \<and>
          verifyZkProof photoHash secret s')) \<and>
   (\<exists>s'. verifyPhoto \<lparr>msg_sender = A, block_timestamp = 1000\<rparr>
          0x1111111111111111111111111111111111111111111111111111111111111111
          (computeCommitment
             0x1111111111111111111111111111111111111111111111111111111111111111
             0x2222222222222222222222222222222222222222222222222222222222222222)
          (constructor e0) = Inr (1000, s') \<and>
      verifyZkProof
        0x1111111111111111111111111111111111111111111111111111111111111111
        0x2222222222222222222222222222222222222222222222222222222222222222 s' \<and>
      \<not> verifyZkProof
        0x1111111111111111111111111111111111111111111111111111111111111111
        0x3333333333333333333333333333333333333333333333333333333333333333 s' \<and>
      getOwnerPhotoCount A s' = 1)"
proof -
  have 1: "\<exists>s'. verifyPhoto env photoHash (computeCommitment photoHash secret) s
              = Inr (block_timestamp env, s') \<and> verifyZkProof photoHash secret s'"
    if "ownerPhotoCount s (msg_sender env) \<noteq> - 1" and "photoCount s \<noteq> - 1"
    using that by (simp add: verifyPhoto_success verifyZkProof_def)
  have pre: "ownerPhotoCount (constructor e0) (msg_sender \<lparr>msg_sender = A, block_timestamp = 1000\<rparr>) \<noteq> - 1"
    "photoCount (constructor e0) \<noteq> - 1"
    by (simp_all add: constructor_def)
  have 2: "\<exists>s'. verifyPhoto \<lparr>msg_sender = A, block_timestamp = 1000\<rparr>
          0x1111111111111111111111111111111111111111111111111111111111111111
          (computeCommitment
             0x1111111111111111111111111111111111111111111111111111111111111111
             0x2222222222222222222222222222222222222222222222222222222222222222)
          (constructor e0) = Inr (1000, s') \<and>
      verifyZkProof
        0x1111111111111111111111111111111111111111111111111111111111111111
        0x2222222222222222222222222222222222222222222222222222222222222222 s' \<and>
      \<not> verifyZkProof
        0x1111111111111111111111111111111111111111111111111111111111111111
        0x3333333333333333333333333333333333333333333333333333333333333333 s' \<and>
      getOwnerPhotoCount A s' = 1"
    unfolding computeCommitment_22
    by (simp add: verifyPhoto_success [OF pre] verifyZkProof_def getOwnerPhotoCount_def
        computeCommitment_22 computeCommitment_33)
      (simp add: constructor_def)
  from 1 2 show ?thesis by blast
qed

text \<open>The general part at a concrete call on a fresh contract.\<close>

theorem ownership_proof_round_trip_witness:
  "ownerPhotoCount (constructor \<lparr>msg_sender = 7, block_timestamp = 999\<rparr>)
      (msg_sender \<lparr>msg_sender = 10, block_timestamp = 1000\<rparr>) \<noteq> - 1 \<and>
   photoCount (constructor \<lparr>msg_sender = 7, block_timestamp = 999\<rparr>) \<noteq> - 1 \<and>
   (\<exists>s'. verifyPhoto \<lparr>msg_sender = 10, block_timestamp = 1000\<rparr> 17 (computeCommitment 17 5)
          (constructor \<lparr>msg_sender = 7, block_timestamp = 999\<rparr>) = Inr (1000, s') \<and>
      verifyZkProof 17 5 s')"
proof -
  have pre: "ownerPhotoCount (constructor \<lparr>msg_sender = 7, block_timestamp = 999\<rparr>)
      (msg_sender \<lparr>msg_sender = 10, block_timestamp = 1000\<rparr>) \<noteq> - 1 \<and>
    photoCount (constructor \<lparr>msg_sender = 7, block_timestamp = 999\<rparr>) \<noteq> - 1"
    by (simp add: constructor_def)
  from ownership_proof_round_trip
    [of "constructor \<lparr>msg_sender = 7, block_timestamp = 999\<rparr>"
        "\<lparr>msg_sender = 10, block_timestamp = 1000\<rparr>" 17 5 10
        "\<lparr>msg_sender = 7, block_timestamp = 999\<rparr>"]
  have "ownerPhotoCount (constructor \<lparr>msg_sender = 7, block_timestamp = 999\<rparr>)
      (msg_sender \<lparr>msg_sender = 10, block_timestamp = 1000\<rparr>) \<noteq> - 1 \<and>
    photoCount (constructor \<lparr>msg_sender = 7, block_timestamp = 999\<rparr>) \<noteq> - 1 \<longrightarrow>
    (\<exists>s'. verifyPhoto \<lparr>msg_sender = 10, block_timestamp = 1000\<rparr> 17 (computeCommitment 17 5)
          (constructor \<lparr>msg_sender = 7, block_timestamp = 999\<rparr>)
        = Inr (block_timestamp \<lparr>msg_sender = 10, block_timestamp = 1000\<rparr>, s') \<and>
      verifyZkProof 17 5 s')"
    by (rule conjunct1)
  with pre show ?thesis by simp
qed

section \<open>\<^verbatim>\<open>verifyPhoto\<close> succeeds\<close>

text \<open>
  Claim C7. In every reachable state, \<^verbatim>\<open>verifyPhoto\<close> succeeds for every identifier,
  commitment, sender and timestamp: it returns the timestamp and stores the record with
  the sender as owner, whoever owned the record before and whoever deployed the
  contract, so there is no check of the sender. The function has no \<^verbatim>\<open>require\<close> and no
  \<^verbatim>\<open>revert\<close>; the overflow check of its two increments, the one branch that reverts,
  is not reached: a call that reverts needs \<open>2 ^ 256 - 1\<close> transactions before it. The
  reachable states are those that a run of fewer transactions reaches from the
  constructor, which are all that an execution can produce.
\<close>

theorem verifyPhoto_always_succeeds:
  "(length txs < 2 ^ 256 - 1 \<longrightarrow>
      (\<exists>s'. verifyPhoto env photoHash commitment (run (constructor e0) txs)
           = Inr (block_timestamp env, s') \<and>
         getAttestation photoHash s' = (block_timestamp env, msg_sender env, commitment) \<and>
         getOwnerOf photoHash s' = msg_sender env)) \<and>
   (isl (verifyPhoto env photoHash commitment (run (constructor e0) txs)) \<longrightarrow>
      2 ^ 256 - 1 \<le> length txs)"
proof -
  have 1: "\<exists>s'. verifyPhoto env photoHash commitment (run (constructor e0) txs)
           = Inr (block_timestamp env, s') \<and>
         getAttestation photoHash s' = (block_timestamp env, msg_sender env, commitment) \<and>
         getOwnerOf photoHash s' = msg_sender env" if "length txs < 2 ^ 256 - 1"
    using run_not_saturated [OF that, of e0 "msg_sender env"]
    by (simp add: verifyPhoto_success getAttestation_def getOwnerOf_def)
  have 2: "2 ^ 256 - 1 \<le> length txs"
    if r: "isl (verifyPhoto env photoHash commitment (run (constructor e0) txs))"
  proof (rule ccontr)
    assume "\<not> 2 ^ 256 - 1 \<le> length txs"
    then have "length txs < 2 ^ 256 - 1" by simp
    from 1 [OF this] r show False by auto
  qed
  from 1 2 show ?thesis by blast
qed

text \<open>
  The theorem after one transaction: a second sender, who is neither the owner of the
  record nor the deployer, overwrites the record and becomes its owner.
\<close>

theorem verifyPhoto_always_succeeds_witness:
  "length [(\<lparr>msg_sender = 10, block_timestamp = 1000\<rparr>, 17 :: uint256, 34 :: uint256)]
      < 2 ^ 256 - 1 \<and>
   getOwnerOf 17 (run (constructor \<lparr>msg_sender = 7, block_timestamp = 999\<rparr>)
         [(\<lparr>msg_sender = 10, block_timestamp = 1000\<rparr>, 17, 34)]) = 10 \<and>
   (\<exists>s'. verifyPhoto \<lparr>msg_sender = 11, block_timestamp = 2000\<rparr> 17 51
      (run (constructor \<lparr>msg_sender = 7, block_timestamp = 999\<rparr>)
         [(\<lparr>msg_sender = 10, block_timestamp = 1000\<rparr>, 17, 34)]) = Inr (2000, s') \<and>
      getAttestation 17 s' = (2000, 11, 51) \<and>
      getOwnerOf 17 s' = 11)"
proof -
  have o: "getOwnerOf 17 (run (constructor \<lparr>msg_sender = 7, block_timestamp = 999\<rparr>)
         [(\<lparr>msg_sender = 10, block_timestamp = 1000\<rparr>, 17, 34)]) = 10"
    by (simp add: run_def exec_tx_def verifyPhoto_def Let_def checked_inc_def constructor_def
        getOwnerOf_def)
  show ?thesis
    using o verifyPhoto_always_succeeds
      [of "[(\<lparr>msg_sender = 10, block_timestamp = 1000\<rparr>, 17, 34)]"
          "\<lparr>msg_sender = 11, block_timestamp = 2000\<rparr>" 17 51
          "\<lparr>msg_sender = 7, block_timestamp = 999\<rparr>"]
    by simp
qed

section \<open>The frame of \<^verbatim>\<open>verifyPhoto\<close>\<close>

text \<open>
  Claim C8. From every state, a call \<^verbatim>\<open>verifyPhoto(photoHash, commitment)\<close> changes at
  most the record of \<open>photoHash\<close>, the counter of the sender and the global counter:
  the record of every other identifier and the counter of every other identity are
  unchanged, as is the contract owner. When the call writes (it does not revert), the
  sender's counter and the global counter each grow by exactly 1, whether or not
  \<open>photoHash\<close> had a record already.
\<close>

theorem verifyPhoto_frame:
  "(\<forall>h. h \<noteq> photoHash \<longrightarrow>
      getAttestation h (exec_tx s (env, photoHash, commitment)) = getAttestation h s) \<and>
   (\<forall>a. a \<noteq> msg_sender env \<longrightarrow>
      getOwnerPhotoCount a (exec_tx s (env, photoHash, commitment)) = getOwnerPhotoCount a s) \<and>
   contract_owner (exec_tx s (env, photoHash, commitment)) = contract_owner s \<and>
   (ownerPhotoCount s (msg_sender env) \<noteq> - 1 \<and> photoCount s \<noteq> - 1 \<longrightarrow>
      (\<exists>s'. verifyPhoto env photoHash commitment s = Inr (block_timestamp env, s') \<and>
         exec_tx s (env, photoHash, commitment) = s' \<and>
         unat (getOwnerPhotoCount (msg_sender env) s') =
           unat (getOwnerPhotoCount (msg_sender env) s) + 1 \<and>
         unat (getPhotoCount s') = unat (getPhotoCount s) + 1))"
proof -
  have 1: "\<forall>h. h \<noteq> photoHash \<longrightarrow>
      getAttestation h (exec_tx s (env, photoHash, commitment)) = getAttestation h s"
    using exec_tx_frame [of _ photoHash s env commitment] by (simp add: getAttestation_def)
  have 2: "\<forall>a. a \<noteq> msg_sender env \<longrightarrow>
      getOwnerPhotoCount a (exec_tx s (env, photoHash, commitment)) = getOwnerPhotoCount a s"
    using exec_tx_frame [of _ photoHash s env commitment] by (simp add: getOwnerPhotoCount_def)
  have 3: "contract_owner (exec_tx s (env, photoHash, commitment)) = contract_owner s"
    using exec_tx_frame [of _ photoHash s env commitment] by simp
  have 4: "\<exists>s'. verifyPhoto env photoHash commitment s = Inr (block_timestamp env, s') \<and>
         exec_tx s (env, photoHash, commitment) = s' \<and>
         unat (getOwnerPhotoCount (msg_sender env) s') =
           unat (getOwnerPhotoCount (msg_sender env) s) + 1 \<and>
         unat (getPhotoCount s') = unat (getPhotoCount s) + 1"
    if "ownerPhotoCount s (msg_sender env) \<noteq> - 1" and "photoCount s \<noteq> - 1"
    using that
    by (simp add: verifyPhoto_success exec_tx_success getOwnerPhotoCount_def getPhotoCount_def
        unat_inc)
  from 1 2 3 4 show ?thesis by blast
qed

text \<open>The theorem at a concrete call on a fresh contract.\<close>

theorem verifyPhoto_frame_witness:
  "ownerPhotoCount (constructor \<lparr>msg_sender = 7, block_timestamp = 999\<rparr>)
      (msg_sender \<lparr>msg_sender = 10, block_timestamp = 1000\<rparr>) \<noteq> - 1 \<and>
   photoCount (constructor \<lparr>msg_sender = 7, block_timestamp = 999\<rparr>) \<noteq> - 1 \<and>
   (\<exists>s'. verifyPhoto \<lparr>msg_sender = 10, block_timestamp = 1000\<rparr> 17 34
            (constructor \<lparr>msg_sender = 7, block_timestamp = 999\<rparr>) = Inr (1000, s') \<and>
      getAttestation 18 s' = (0, 0, 0) \<and>
      getOwnerPhotoCount 11 s' = 0 \<and>
      unat (getOwnerPhotoCount 10 s') = 1 \<and>
      unat (getPhotoCount s') = 1)"
proof -
  let ?s = "constructor \<lparr>msg_sender = 7, block_timestamp = 999\<rparr>"
  let ?env = "\<lparr>msg_sender = 10, block_timestamp = 1000\<rparr>"
  have pre: "ownerPhotoCount ?s (msg_sender ?env) \<noteq> - 1 \<and> photoCount ?s \<noteq> - 1"
    by (simp add: constructor_def)
  from verifyPhoto_frame [of 17 ?s ?env 34] pre
  obtain s' where s': "verifyPhoto ?env 17 34 ?s = Inr (block_timestamp ?env, s')"
    and ex: "exec_tx ?s (?env, 17, 34) = s'"
    and att: "\<forall>h. h \<noteq> 17 \<longrightarrow> getAttestation h (exec_tx ?s (?env, 17, 34)) = getAttestation h ?s"
    and cnt: "\<forall>a. a \<noteq> msg_sender ?env \<longrightarrow>
        getOwnerPhotoCount a (exec_tx ?s (?env, 17, 34)) = getOwnerPhotoCount a ?s"
    and own: "unat (getOwnerPhotoCount (msg_sender ?env) s') =
        unat (getOwnerPhotoCount (msg_sender ?env) ?s) + 1"
    and tot: "unat (getPhotoCount s') = unat (getPhotoCount ?s) + 1"
    by blast
  have "getAttestation 18 s' = (0, 0, 0)"
    using att ex by (simp add: getAttestation_def constructor_def zero_attestation_def)
  moreover have "getOwnerPhotoCount 11 s' = 0"
    using cnt ex by (simp add: getOwnerPhotoCount_def constructor_def)
  moreover have "unat (getOwnerPhotoCount 10 s') = 1"
    using own by (simp add: getOwnerPhotoCount_def constructor_def)
  moreover have "unat (getPhotoCount s') = 1"
    using tot by (simp add: getPhotoCount_def constructor_def)
  ultimately show ?thesis using pre s' by auto
qed

section \<open>The global counter is the sum of the owners' counters\<close>

text \<open>
  Claim C9. In every state that a list of transactions reaches from the constructor,
  \<^verbatim>\<open>photoCount\<close> equals the sum of \<^verbatim>\<open>ownerPhotoCount\<close> over all addresses (as natural
  numbers), and every transaction, reverted or not, preserves this equality from any
  state in which it holds.
\<close>

theorem photoCount_is_sum_of_owner_counts:
  "(\<Sum>a\<in>UNIV. unat (ownerPhotoCount (run (constructor e0) txs) a)) =
      unat (photoCount (run (constructor e0) txs)) \<and>
   ((\<Sum>a\<in>UNIV. unat (ownerPhotoCount s a)) = unat (photoCount s) \<longrightarrow>
    (\<Sum>a\<in>UNIV. unat (ownerPhotoCount (exec_tx s t) a)) = unat (photoCount (exec_tx s t)))"
  using run_counts_sum [of e0 txs] exec_tx_counts_sum [of s t] by blast

text \<open>The theorem at the fresh contract and one transaction.\<close>

theorem photoCount_is_sum_of_owner_counts_witness:
  "(\<Sum>a\<in>UNIV. unat (ownerPhotoCount (constructor \<lparr>msg_sender = 7, block_timestamp = 999\<rparr>) a)) =
      unat (photoCount (constructor \<lparr>msg_sender = 7, block_timestamp = 999\<rparr>)) \<and>
   (\<Sum>a\<in>UNIV. unat (ownerPhotoCount
       (exec_tx (constructor \<lparr>msg_sender = 7, block_timestamp = 999\<rparr>)
          (\<lparr>msg_sender = 10, block_timestamp = 1000\<rparr>, 17, 34)) a)) =
      unat (photoCount (exec_tx (constructor \<lparr>msg_sender = 7, block_timestamp = 999\<rparr>)
          (\<lparr>msg_sender = 10, block_timestamp = 1000\<rparr>, 17, 34)))"
  using photoCount_is_sum_of_owner_counts
    [of "\<lparr>msg_sender = 7, block_timestamp = 999\<rparr>" "[]"
        "constructor \<lparr>msg_sender = 7, block_timestamp = 999\<rparr>"
        "(\<lparr>msg_sender = 10, block_timestamp = 1000\<rparr>, 17, 34)"]
  by (simp add: run_Nil)

section \<open>Identifiers that were never written\<close>

text \<open>
  An identifier that no transaction of the run names reads as the zero record, without
  any error, and is not verified.
\<close>

lemma absent_getAttestation:
  "h \<notin> written_ids txs \<Longrightarrow> getAttestation h (run (constructor e0) txs) = (0, 0, 0)"
  by (simp add: getAttestation_def never_written_zero zero_attestation_def)

lemma absent_isVerified:
  "h \<notin> written_ids txs \<Longrightarrow> \<not> isVerified h (run (constructor e0) txs)"
  by (simp add: isVerified_def never_written_zero zero_attestation_def)

text \<open>
  Claim C10. A stored commitment of zero cannot be told from absence by
  \<^verbatim>\<open>verifyZkProof\<close>: after \<^verbatim>\<open>verifyPhoto(photoHash, 0)\<close>, and likewise for an identifier
  that was never written, \<^verbatim>\<open>verifyZkProof(photoHash, secret)\<close> returns true exactly
  when \<^verbatim>\<open>computeCommitment(photoHash, secret)\<close> is zero.
\<close>

theorem zero_commitment_like_absent:
  "(ownerPhotoCount s (msg_sender env) \<noteq> - 1 \<and> photoCount s \<noteq> - 1 \<longrightarrow>
      (\<exists>s'. verifyPhoto env photoHash 0 s = Inr (block_timestamp env, s') \<and>
         verifyZkProof photoHash secret s' = (computeCommitment photoHash secret = 0))) \<and>
   (photoHash \<notin> written_ids txs \<longrightarrow>
      verifyZkProof photoHash secret (run (constructor e0) txs)
        = (computeCommitment photoHash secret = 0))"
  by (simp add: verifyPhoto_success verifyZkProof_def never_written_zero zero_attestation_def)

text \<open>The theorem at identifier 17, recorded with commitment 0 or never written.\<close>

theorem zero_commitment_like_absent_witness:
  "17 \<notin> written_ids [(\<lparr>msg_sender = 10, block_timestamp = 1000\<rparr>, 18, 34)] \<and>
   (\<exists>s'. verifyPhoto \<lparr>msg_sender = 10, block_timestamp = 1000\<rparr> 17 0
        (constructor \<lparr>msg_sender = 7, block_timestamp = 999\<rparr>) = Inr (1000, s') \<and>
      verifyZkProof 17 5 s' = (computeCommitment 17 5 = 0)) \<and>
   verifyZkProof 17 5 (run (constructor \<lparr>msg_sender = 7, block_timestamp = 999\<rparr>)
        [(\<lparr>msg_sender = 10, block_timestamp = 1000\<rparr>, 18, 34)])
     = (computeCommitment 17 5 = 0)"
  using zero_commitment_like_absent
    [of "constructor \<lparr>msg_sender = 7, block_timestamp = 999\<rparr>"
        "\<lparr>msg_sender = 10, block_timestamp = 1000\<rparr>" 17 5
        "[(\<lparr>msg_sender = 10, block_timestamp = 1000\<rparr>, 18, 34)]"
        "\<lparr>msg_sender = 7, block_timestamp = 999\<rparr>"]
  by (simp add: constructor_def written_ids_def)

end
